theory Spec2Isabelle
  imports Main "HOL-Library.Char_ord" "HOL-Library.List_Lexorder" "HOL-Library.Multiset"
begin

section \<open>The post store of backend\_app.py\<close>

text \<open>
  The module keeps one process-wide list \<open>POSTS\<close> of dictionaries with the keys
  \<open>id\<close>, \<open>title\<close> and \<open>content\<close>. A post is modelled as a record; the field
  \<open>id\<close> is written \<open>id'\<close>, since \<open>id\<close> is the identity function of HOL.
  Titles and contents are text (the JSON shape of a post has string fields); a character
  is a code point below 256. Every handler takes the collection and returns the
  response (JSON body and HTTP status) together with the collection it leaves behind.
\<close>

record post =
  id' :: int
  title :: string
  content :: string

text \<open>The bodies passed to \<open>jsonify\<close>: a list of posts, one post, \<open>{'error': s}\<close> and
  \<open>{'message': s}\<close>.\<close>

datatype json = JPosts "post list" | JPost post | JError string | JMessage string

type_synonym response = "json \<times> nat"

text \<open>A parsed JSON object with string values, as an association list; \<open>None\<close> is the
  value \<open>None\<close> that \<open>request.get_json()\<close> returns for the JSON document \<open>null\<close>.\<close>

type_synonym payload = "(string \<times> string) list"

definition POSTS0 :: "post list" where
  "POSTS0 =
     [\<lparr>id' = 1, title = ''First post'', content = ''This is the first post.''\<rparr>,
      \<lparr>id' = 2, title = ''Second post'', content = ''This is the second post.''\<rparr>]"

subsection \<open>Strings\<close>

text \<open>\<open>str.lower()\<close> on code points below 256: the letters A to Z, and the capital
  letters of Latin-1 (192 to 222 without the multiplication sign 215), move up by 32.\<close>

definition lower_char :: "char \<Rightarrow> char" where
  "lower_char c =
     (let n = (of_char c :: nat)
      in if (65 \<le> n \<and> n \<le> 90) \<or> (192 \<le> n \<and> n \<le> 222 \<and> n \<noteq> 215)
         then char_of (n + 32) else c)"

definition lower :: "string \<Rightarrow> string" where
  "lower s = map lower_char s"

text \<open>\<open>q in s\<close> for two strings: \<open>q\<close> occurs in \<open>s\<close> as a contiguous block.\<close>

fun startswith :: "string \<Rightarrow> string \<Rightarrow> bool" where
  "startswith s [] = True"
| "startswith [] (c # q) = False"
| "startswith (d # s) (c # q) = (d = c \<and> startswith s q)"

fun str_in :: "string \<Rightarrow> string \<Rightarrow> bool" where
  "str_in q [] = (q = [])"
| "str_in q (d # s) = (startswith (d # s) q \<or> str_in q s)"

text \<open>\<open>str(n)\<close>, which the f-strings of the error messages apply to the id.\<close>

definition digit :: "nat \<Rightarrow> char" where
  "digit n = char_of (48 + n)"

fun str_nat :: "nat \<Rightarrow> string" where
  "str_nat n = (if n < 10 then [digit n] else str_nat (n div 10) @ [digit (n mod 10)])"

declare str_nat.simps [simp del]

definition str :: "int \<Rightarrow> string" where
  "str i = (if i < 0 then CHR ''-'' # str_nat (nat (- i)) else str_nat (nat i))"

text \<open>Truthiness of an optional query parameter: \<open>None\<close> and the empty string are false.\<close>

definition truthy :: "string option \<Rightarrow> bool" where
  "truthy v = (case v of None \<Rightarrow> False | Some s \<Rightarrow> s \<noteq> [])"

subsection \<open>Sorting\<close>

text \<open>\<open>list.sort(key=..., reverse=...)\<close> is a stable sort by key; with \<open>reverse=True\<close>
  the list is reversed, sorted and reversed again, so that equal keys keep their order.\<close>

definition py_sort :: "('a \<Rightarrow> 'k::linorder) \<Rightarrow> bool \<Rightarrow> 'a list \<Rightarrow> 'a list" where
  "py_sort key reverse xs = (if reverse then rev (sort_key key (rev xs)) else sort_key key xs)"

text \<open>\<open>post[sort_field]\<close> for the keys whose values are strings; any other key makes
  the key function raise.\<close>

definition getitem :: "string \<Rightarrow> (post \<Rightarrow> string) option" where
  "getitem k = (if k = ''title'' then Some title else if k = ''content'' then Some content else None)"

definition valid_fields :: "string list" where
  "valid_fields = [''title'', ''content'']"

definition valid_directions :: "string list" where
  "valid_directions = [''asc'', ''desc'']"

subsection \<open>GET /api/posts\<close>

definition get_posts :: "string option \<Rightarrow> string option \<Rightarrow> post list \<Rightarrow> response \<times> post list" where
  "get_posts sort_field direction POSTS =
     (let sorted_posts = POSTS in
      if truthy sort_field \<and> sort_field \<notin> Some ` set valid_fields
      then ((JError ''Invalid sort field. Must be \"title\" or \"content\".'', 400), POSTS)
      else if truthy direction \<and> direction \<notin> Some ` set valid_directions
      then ((JError ''Invalid direction. Must be \"asc\" or \"desc\".'', 400), POSTS)
      else (case sort_field of
              None \<Rightarrow> ((JPosts sorted_posts, 200), POSTS)
            | Some f \<Rightarrow>
                if f = [] then ((JPosts sorted_posts, 200), POSTS)
                else (case getitem f of
                        None \<Rightarrow> ((JError ''Internal Server Error'', 500), POSTS)
                      | Some field \<Rightarrow>
                          let reverse_sort = (direction = Some ''desc'')
                          in ((JPosts (py_sort (\<lambda>post. lower (field post)) reverse_sort sorted_posts),
                               200), POSTS))))"

subsection \<open>POST /api/posts\<close>

text \<open>\<open>max(post['id'] for post in POSTS) + 1 if POSTS else 1\<close>.\<close>

definition new_id :: "post list \<Rightarrow> int" where
  "new_id POSTS = (case map id' POSTS of [] \<Rightarrow> 1 | x # xs \<Rightarrow> foldl max x xs + 1)"

definition add_post :: "payload option \<Rightarrow> post list \<Rightarrow> response \<times> post list" where
  "add_post data POSTS =
     (case data of
        None \<Rightarrow> ((JError ''Missing title or content'', 400), POSTS)
      | Some d \<Rightarrow>
          (case (d = [], map_of d ''title'', map_of d ''content'') of
             (False, Some t, Some c) \<Rightarrow>
               let new_post = \<lparr>id' = new_id POSTS, title = t, content = c\<rparr>
               in ((JPost new_post, 201), POSTS @ [new_post])
           | _ \<Rightarrow> ((JError ''Missing title or content'', 400), POSTS)))"

subsection \<open>DELETE /api/posts/<id>\<close>

definition delete_post :: "int \<Rightarrow> post list \<Rightarrow> response \<times> post list" where
  "delete_post post_id POSTS =
     (case find (\<lambda>post. id' post = post_id) POSTS of
        None \<Rightarrow> ((JError (''Post with id '' @ str post_id @ '' not found.''), 404), POSTS)
      | Some post_to_delete \<Rightarrow>
          ((JMessage (''Post with id '' @ str post_id @ '' has been deleted successfully.''), 200),
           remove1 post_to_delete POSTS))"

subsection \<open>PUT /api/posts/<id>\<close>

text \<open>\<open>post_to_update\<close> refers to the first dictionary of \<open>POSTS\<close> with the id; the two
  assignments change that dictionary in place.\<close>

fun assign :: "int \<Rightarrow> string \<Rightarrow> string \<Rightarrow> post list \<Rightarrow> post list" where
  "assign i t c [] = []"
| "assign i t c (p # ps) =
     (if id' p = i then p\<lparr>title := t, content := c\<rparr> # ps else p # assign i t c ps)"

text \<open>\<open>data.get(k, dflt)\<close>; on \<open>data = None\<close> the call raises AttributeError, which the
  server answers with status 500.\<close>

definition dict_get :: "payload \<Rightarrow> string \<Rightarrow> string \<Rightarrow> string" where
  "dict_get d k dflt = (case map_of d k of None \<Rightarrow> dflt | Some v \<Rightarrow> v)"

definition update_post :: "int \<Rightarrow> payload option \<Rightarrow> post list \<Rightarrow> response \<times> post list" where
  "update_post post_id data POSTS =
     (case find (\<lambda>post. id' post = post_id) POSTS of
        None \<Rightarrow> ((JError (''Post with id '' @ str post_id @ '' not found.''), 404), POSTS)
      | Some post_to_update \<Rightarrow>
          (case data of
             None \<Rightarrow> ((JError ''Internal Server Error'', 500), POSTS)
           | Some d \<Rightarrow>
               let title' = dict_get d ''title'' (title post_to_update);
                   content' = dict_get d ''content'' (content post_to_update)
               in ((JPost \<lparr>id' = post_id, title = title', content = content'\<rparr>, 200),
                   assign post_id title' content' POSTS)))"

subsection \<open>GET /api/posts/search\<close>

definition search_posts :: "string option \<Rightarrow> string option \<Rightarrow> post list \<Rightarrow> response \<times> post list" where
  "search_posts title_arg content_arg POSTS =
     (let title_query = lower (case title_arg of None \<Rightarrow> [] | Some q \<Rightarrow> q);
          content_query = lower (case content_arg of None \<Rightarrow> [] | Some q \<Rightarrow> q);
          matched_posts =
            foldl (\<lambda>matched post.
                     let title_match = (title_query \<noteq> [] \<and> str_in title_query (lower (title post)));
                         content_match = (content_query \<noteq> [] \<and> str_in content_query (lower (content post)))
                     in if title_match \<or> content_match then matched @ [post] else matched)
                  [] POSTS
      in ((JPosts matched_posts, 200), POSTS))"

subsection \<open>Sequences of requests\<close>

datatype request = Create "payload option" | Update int "payload option" | Delete int

fun step :: "post list \<Rightarrow> request \<Rightarrow> post list" where
  "step POSTS (Create data) = snd (add_post data POSTS)"
| "step POSTS (Update post_id data) = snd (update_post post_id data POSTS)"
| "step POSTS (Delete post_id) = snd (delete_post post_id POSTS)"

definition run :: "request list \<Rightarrow> post list \<Rightarrow> post list" where
  "run reqs POSTS = foldl step POSTS reqs"

section \<open>Properties\<close>

subsection \<open>The next id\<close>

lemma foldl_max_Max: "foldl max (x::int) xs = Max (set (x # xs))"
proof -
  have "foldl max x xs = fold max xs x"
    by (simp add: foldl_conv_fold max.commute)
  then show ?thesis
    by (simp only: Max.set_eq_fold)
qed

lemma new_id_Max: "new_id POSTS = (if POSTS = [] then 1 else Max (id' ` set POSTS) + 1)"
proof (cases POSTS)
  case Nil
  then show ?thesis by (simp add: new_id_def)
next
  case (Cons p ps)
  then show ?thesis by (simp add: new_id_def foldl_max_Max del: Max_insert)
qed

lemma new_id_greater: "p \<in> set POSTS \<Longrightarrow> id' p < new_id POSTS"
proof -
  assume a: "p \<in> set POSTS"
  then have "id' p \<le> Max (id' ` set POSTS)" by simp
  with a show ?thesis by (auto simp add: new_id_Max)
qed

subsection \<open>Create\<close>

text \<open>
  C2. For every collection, \<open>add_post\<close> on a payload that has both \<open>title\<close> and \<open>content\<close>
  gives the new post the id one above the greatest id of the collection, or 1 when the
  collection is empty, appends it at the end, and answers 201 with the created post,
  id included.
\<close>

theorem add_post_assigns_next_id:
  assumes "map_of d ''title'' = Some t" and "map_of d ''content'' = Some c"
  shows "add_post (Some d) POSTS =
     (let n = (if POSTS = [] then 1 else Max (id' ` set POSTS) + 1);
          new_post = \<lparr>id' = n, title = t, content = c\<rparr>
      in ((JPost new_post, 201), POSTS @ [new_post]))"
proof -
  from assms have "d \<noteq> []" by auto
  with assms show ?thesis by (simp add: add_post_def new_id_Max Let_def)
qed

theorem add_post_assigns_next_id_witness:
  "add_post (Some [(''title'', ''A''), (''content'', ''B'')]) POSTS0 =
     ((JPost \<lparr>id' = 3, title = ''A'', content = ''B''\<rparr>, 201),
      POSTS0 @ [\<lparr>id' = 3, title = ''A'', content = ''B''\<rparr>])
   \<and> add_post (Some [(''content'', ''B''), (''title'', ''A'')]) [] =
     ((JPost \<lparr>id' = 1, title = ''A'', content = ''B''\<rparr>, 201),
      [\<lparr>id' = 1, title = ''A'', content = ''B''\<rparr>])"
  using add_post_assigns_next_id [of "[(''title'', ''A''), (''content'', ''B'')]" "''A''" "''B''" POSTS0]
    add_post_assigns_next_id [of "[(''content'', ''B''), (''title'', ''A'')]" "''A''" "''B''" "[]"]
  by (simp add: POSTS0_def Let_def)

subsection \<open>Finding the first post with an id\<close>

lemma find_split:
  "find P xs = Some p \<Longrightarrow> \<exists>ys zs. xs = ys @ p # zs \<and> P p \<and> (\<forall>q \<in> set ys. \<not> P q)"
proof (induction xs)
  case Nil
  then show ?case by simp
next
  case (Cons x xs)
  show ?case
  proof (cases "P x")
    case True
    with Cons.prems have "x = p" by simp
    with True have "x # xs = [] @ p # xs \<and> P p \<and> (\<forall>q \<in> set []. \<not> P q)" by simp
    then show ?thesis by blast
  next
    case False
    with Cons.prems have "find P xs = Some p" by simp
    from Cons.IH [OF this] obtain ys zs
      where "xs = ys @ p # zs" "P p" "\<forall>q \<in> set ys. \<not> P q" by blast
    with False have "x # xs = (x # ys) @ p # zs \<and> P p \<and> (\<forall>q \<in> set (x # ys). \<not> P q)"
      by simp
    then show ?thesis by blast
  qed
qed

lemma find_id_Some:
  "p \<in> set POSTS \<Longrightarrow> id' p = i \<Longrightarrow> \<exists>q. find (\<lambda>post. id' post = i) POSTS = Some q"
  by (cases "find (\<lambda>post. id' post = i) POSTS") (auto simp add: find_None_iff)

lemma remove1_first:
  "\<forall>q \<in> set ys. id' q \<noteq> id' p \<Longrightarrow> remove1 p (ys @ p # zs) = ys @ zs"
  by (induction ys) auto

lemma assign_first:
  "\<forall>q \<in> set ys. id' q \<noteq> i \<Longrightarrow>
   assign i t c (ys @ p # zs) =
     (if id' p = i then ys @ p\<lparr>title := t, content := c\<rparr> # zs else ys @ p # assign i t c zs)"
  by (induction ys) auto

subsection \<open>Delete\<close>

text \<open>
  C6. If the collection has a post with the id, \<open>delete_post\<close> removes the first such post
  and nothing else: the posts before and after it stay, in their order, and the answer is
  200 with a message that names the id. If it has none, the answer is 404 with an error
  that names the id, and the collection is the one before.
\<close>

theorem delete_post_removes_one:
  "((\<exists>p \<in> set POSTS. id' p = post_id) \<longrightarrow>
      (\<exists>ys p zs. POSTS = ys @ p # zs \<and> id' p = post_id \<and> (\<forall>q \<in> set ys. id' q \<noteq> post_id) \<and>
         delete_post post_id POSTS =
           ((JMessage (''Post with id '' @ str post_id @ '' has been deleted successfully.''), 200),
            ys @ zs))) \<and>
   (\<not> (\<exists>p \<in> set POSTS. id' p = post_id) \<longrightarrow>
      delete_post post_id POSTS =
        ((JError (''Post with id '' @ str post_id @ '' not found.''), 404), POSTS))"
proof (intro conjI impI)
  assume "\<exists>p \<in> set POSTS. id' p = post_id"
  then obtain p where f: "find (\<lambda>post. id' post = post_id) POSTS = Some p"
    using find_id_Some by blast
  from find_split [OF f] obtain ys zs
    where s: "POSTS = ys @ p # zs" "id' p = post_id" "\<forall>q \<in> set ys. id' q \<noteq> post_id"
    by blast
  then have "remove1 p POSTS = ys @ zs"
    using remove1_first [of ys p zs] by simp
  with f have "delete_post post_id POSTS =
      ((JMessage (''Post with id '' @ str post_id @ '' has been deleted successfully.''), 200),
       ys @ zs)"
    by (simp add: delete_post_def)
  with s show "\<exists>ys p zs. POSTS = ys @ p # zs \<and> id' p = post_id \<and>
      (\<forall>q \<in> set ys. id' q \<noteq> post_id) \<and>
      delete_post post_id POSTS =
        ((JMessage (''Post with id '' @ str post_id @ '' has been deleted successfully.''), 200),
         ys @ zs)"
    by blast
next
  assume "\<not> (\<exists>p \<in> set POSTS. id' p = post_id)"
  then have "find (\<lambda>post. id' post = post_id) POSTS = None"
    by (simp add: find_None_iff)
  then show "delete_post post_id POSTS =
      ((JError (''Post with id '' @ str post_id @ '' not found.''), 404), POSTS)"
    by (simp add: delete_post_def)
qed

lemma str_99: "str 99 = ''99''"
  by code_simp

lemma str_2: "str 2 = ''2''"
  by code_simp

theorem delete_post_removes_one_witness:
  "delete_post 99 POSTS0 = ((JError ''Post with id 99 not found.'', 404), POSTS0) \<and>
   (\<exists>ys p zs. POSTS0 = ys @ p # zs \<and> id' p = 2 \<and>
      delete_post 2 POSTS0 =
        ((JMessage ''Post with id 2 has been deleted successfully.'', 200), ys @ zs))"
proof -
  have a: "\<not> (\<exists>p \<in> set POSTS0. id' p = 99)"
    by (simp add: POSTS0_def)
  have b: "\<exists>p \<in> set POSTS0. id' p = 2"
    by (simp add: POSTS0_def)
  from a delete_post_removes_one [of POSTS0 99]
  have "delete_post 99 POSTS0 = ((JError ''Post with id 99 not found.'', 404), POSTS0)"
    by (simp add: str_99)
  moreover from b delete_post_removes_one [of POSTS0 2]
  have "\<exists>ys p zs. POSTS0 = ys @ p # zs \<and> id' p = 2 \<and>
      delete_post 2 POSTS0 =
        ((JMessage ''Post with id 2 has been deleted successfully.'', 200), ys @ zs)"
    by (simp add: str_2) blast
  ultimately show ?thesis by blast
qed

subsection \<open>Update\<close>

lemma assign_at_first:
  assumes "POSTS = ys @ p # zs" and "id' p = i" and "\<forall>q \<in> set ys. id' q \<noteq> i"
  shows "assign i t c POSTS = POSTS[length ys := \<lparr>id' = i, title = t, content = c\<rparr>]"
  using assms by (simp add: assign_first)

text \<open>
  C5. If the collection has a post with the id, \<open>update_post\<close> with a payload changes the
  first such post, at position \<open>k\<close>, and no other position: its title and content become
  the payload's where the payload has the key and stay as they were where it has not, its
  id stays, the length of the collection stays, and the answer is 200 with the id and the
  title and content the post has after the update.
\<close>

theorem update_post_frame:
  assumes "\<exists>p \<in> set POSTS. id' p = post_id"
  shows "\<exists>k < length POSTS.
     id' (POSTS ! k) = post_id \<and> (\<forall>j < k. id' (POSTS ! j) \<noteq> post_id) \<and>
     (let updated = \<lparr>id' = post_id,
            title = (case map_of d ''title'' of None \<Rightarrow> title (POSTS ! k) | Some v \<Rightarrow> v),
            content = (case map_of d ''content'' of None \<Rightarrow> content (POSTS ! k) | Some v \<Rightarrow> v)\<rparr>
      in update_post post_id (Some d) POSTS = ((JPost updated, 200), POSTS[k := updated]))"
proof -
  from assms obtain p where f: "find (\<lambda>post. id' post = post_id) POSTS = Some p"
    using find_id_Some by blast
  from find_split [OF f] obtain ys zs
    where s: "POSTS = ys @ p # zs" "id' p = post_id" "\<forall>q \<in> set ys. id' q \<noteq> post_id"
    by blast
  let ?k = "length ys"
  have k: "?k < length POSTS" "POSTS ! ?k = p"
    using s(1) by simp_all
  have before: "\<forall>j < ?k. id' (POSTS ! j) \<noteq> post_id"
    using s(1,3) by (simp add: nth_append)
  let ?u = "\<lparr>id' = post_id,
      title = (case map_of d ''title'' of None \<Rightarrow> title p | Some v \<Rightarrow> v),
      content = (case map_of d ''content'' of None \<Rightarrow> content p | Some v \<Rightarrow> v)\<rparr>"
  have "assign post_id (title ?u) (content ?u) POSTS = POSTS[?k := ?u]"
    using assign_at_first [OF s] by simp
  with f have "update_post post_id (Some d) POSTS = ((JPost ?u, 200), POSTS[?k := ?u])"
    by (simp add: update_post_def dict_get_def Let_def)
  with k before s(2) show ?thesis
    by (auto simp add: Let_def)
qed

theorem update_post_frame_witness:
  "update_post 2 (Some [(''title'', ''New'')]) POSTS0 =
     ((JPost \<lparr>id' = 2, title = ''New'', content = ''This is the second post.''\<rparr>, 200),
      [\<lparr>id' = 1, title = ''First post'', content = ''This is the first post.''\<rparr>,
       \<lparr>id' = 2, title = ''New'', content = ''This is the second post.''\<rparr>]) \<and>
   (\<exists>k < length POSTS0. id' (POSTS0 ! k) = 2 \<and>
      update_post 2 (Some [(''content'', ''Text'')]) POSTS0 =
        ((JPost \<lparr>id' = 2, title = title (POSTS0 ! k), content = ''Text''\<rparr>, 200),
         POSTS0[k := \<lparr>id' = 2, title = title (POSTS0 ! k), content = ''Text''\<rparr>]))"
proof -
  have e: "\<exists>p \<in> set POSTS0. id' p = 2"
    by (simp add: POSTS0_def)
  have "update_post 2 (Some [(''title'', ''New'')]) POSTS0 =
     ((JPost \<lparr>id' = 2, title = ''New'', content = ''This is the second post.''\<rparr>, 200),
      [\<lparr>id' = 1, title = ''First post'', content = ''This is the first post.''\<rparr>,
       \<lparr>id' = 2, title = ''New'', content = ''This is the second post.''\<rparr>])"
    by (simp add: update_post_def POSTS0_def dict_get_def Let_def)
  moreover from update_post_frame [OF e, of "[(''content'', ''Text'')]"]
  have "\<exists>k < length POSTS0. id' (POSTS0 ! k) = 2 \<and>
      update_post 2 (Some [(''content'', ''Text'')]) POSTS0 =
        ((JPost \<lparr>id' = 2, title = title (POSTS0 ! k), content = ''Text''\<rparr>, 200),
         POSTS0[k := \<lparr>id' = 2, title = title (POSTS0 ! k), content = ''Text''\<rparr>])"
    by (simp add: Let_def) blast
  ultimately show ?thesis by blast
qed

subsection \<open>Listing without a sort field\<close>

text \<open>
  C9. A list request without \<open>sort\<close>, with \<open>direction\<close> absent or one of \<open>asc\<close> and
  \<open>desc\<close>, answers 200 with all posts in the order of the collection, and leaves the
  collection as it was: a direction without a sort field is ignored.
\<close>

theorem get_posts_unsorted:
  assumes "direction \<in> {None, Some ''asc'', Some ''desc''}"
  shows "get_posts None direction POSTS = ((JPosts POSTS, 200), POSTS)"
  using assms by (auto simp add: get_posts_def truthy_def valid_directions_def)

theorem get_posts_unsorted_witness:
  "get_posts None (Some ''desc'') POSTS0 = ((JPosts POSTS0, 200), POSTS0) \<and>
   get_posts None None [] = ((JPosts [], 200), [])"
  using get_posts_unsorted [of "Some ''desc''" POSTS0] get_posts_unsorted [of None "[]"]
  by simp

subsection \<open>Validation of the list parameters\<close>

text \<open>
  C7, as the code has it. The two checks are guarded by the truth value of the parameter,
  so an empty string passes them like an absent parameter does. A list request answers
  400 with an error, the collection unchanged, exactly if \<open>sort\<close> is present, not empty
  and neither \<open>title\<close> nor \<open>content\<close>, or \<open>direction\<close> is present, not empty and neither
  \<open>asc\<close> nor \<open>desc\<close>; an empty \<open>sort\<close> or \<open>direction\<close> gives the answer of the request
  without that parameter.
\<close>

theorem get_posts_rejects_invalid:
  "((\<exists>msg. get_posts sort_field direction POSTS = ((JError msg, 400), POSTS)) =
      ((\<exists>s. sort_field = Some s \<and> s \<noteq> [] \<and> s \<noteq> ''title'' \<and> s \<noteq> ''content'') \<or>
       (\<exists>d. direction = Some d \<and> d \<noteq> [] \<and> d \<noteq> ''asc'' \<and> d \<noteq> ''desc''))) \<and>
   get_posts (Some []) direction POSTS = get_posts None direction POSTS \<and>
   get_posts sort_field (Some []) POSTS = get_posts sort_field None POSTS"
proof (intro conjI)
  show "get_posts (Some []) direction POSTS = get_posts None direction POSTS"
    by (simp add: get_posts_def truthy_def)
  show "get_posts sort_field (Some []) POSTS = get_posts sort_field None POSTS"
    by (simp add: get_posts_def truthy_def split: option.splits)
  show "(\<exists>msg. get_posts sort_field direction POSTS = ((JError msg, 400), POSTS)) =
      ((\<exists>s. sort_field = Some s \<and> s \<noteq> [] \<and> s \<noteq> ''title'' \<and> s \<noteq> ''content'') \<or>
       (\<exists>d. direction = Some d \<and> d \<noteq> [] \<and> d \<noteq> ''asc'' \<and> d \<noteq> ''desc''))"
    by (cases sort_field; cases direction)
      (auto simp add: get_posts_def truthy_def valid_fields_def valid_directions_def
        getitem_def Let_def)
qed

theorem get_posts_rejects_invalid_witness:
  "get_posts (Some ''id'') None POSTS0 =
     ((JError ''Invalid sort field. Must be \"title\" or \"content\".'', 400), POSTS0) \<and>
   (\<exists>msg. get_posts (Some ''title'') (Some ''up'') POSTS0 = ((JError msg, 400), POSTS0)) \<and>
   get_posts (Some []) (Some ''desc'') POSTS0 = get_posts None (Some ''desc'') POSTS0"
proof -
  have "get_posts (Some ''id'') None POSTS0 =
     ((JError ''Invalid sort field. Must be \"title\" or \"content\".'', 400), POSTS0)"
    by (simp add: get_posts_def truthy_def valid_fields_def)
  moreover have "\<exists>msg. get_posts (Some ''title'') (Some ''up'') POSTS0 = ((JError msg, 400), POSTS0)"
    using get_posts_rejects_invalid [of "Some ''title''" "Some ''up''" POSTS0] by simp
  moreover have "get_posts (Some []) (Some ''desc'') POSTS0 = get_posts None (Some ''desc'') POSTS0"
    using get_posts_rejects_invalid [of "Some ''title''" "Some ''desc''" POSTS0] by blast
  ultimately show ?thesis by blast
qed

text \<open>The claim as the specification states it fails at the empty string: a request with
  \<open>sort=\<close> (present, and not \<open>title\<close> or \<open>content\<close>) is answered 200 with the posts, and
  so is a request with \<open>direction=\<close>.\<close>

theorem get_posts_empty_parameter_accepted:
  "get_posts (Some '''') None POSTS0 = ((JPosts POSTS0, 200), POSTS0) \<and>
   get_posts None (Some '''') POSTS0 = ((JPosts POSTS0, 200), POSTS0) \<and>
   '''' \<notin> set valid_fields \<and> '''' \<notin> set valid_directions"
  by (simp add: get_posts_def truthy_def valid_fields_def valid_directions_def)

subsection \<open>Validation of the create payload\<close>

text \<open>
  C10. \<open>add_post\<close> looks at the keys of the payload only. It answers 400 with the
  error \<open>Missing title or content\<close> exactly if the payload is absent, or empty, or has no
  \<open>title\<close> or no \<open>content\<close> key, and then leaves the collection as it was. A payload
  that maps both keys to the empty string is accepted: the post is stored with empty title
  and content and gets the next id.
\<close>

theorem add_post_checks_keys_only:
  "((fst (add_post data POSTS) = (JError ''Missing title or content'', 400)) =
      (data = None \<or> data = Some [] \<or>
       (\<exists>d. data = Some d \<and> (''title'' \<notin> fst ` set d \<or> ''content'' \<notin> fst ` set d)))) \<and>
   (fst (add_post data POSTS) = (JError ''Missing title or content'', 400) \<longrightarrow>
      snd (add_post data POSTS) = POSTS) \<and>
   (\<forall>d. data = Some d \<and> map_of d ''title'' = Some [] \<and> map_of d ''content'' = Some [] \<longrightarrow>
      add_post data POSTS =
        ((JPost \<lparr>id' = new_id POSTS, title = [], content = []\<rparr>, 201),
         POSTS @ [\<lparr>id' = new_id POSTS, title = [], content = []\<rparr>]))"
proof (cases data)
  case None
  then show ?thesis by (simp add: add_post_def)
next
  case (Some d)
  have kt: "(''title'' \<in> fst ` set d) = (map_of d ''title'' \<noteq> None)"
    by (simp add: map_of_eq_None_iff)
  have kc: "(''content'' \<in> fst ` set d) = (map_of d ''content'' \<noteq> None)"
    by (simp add: map_of_eq_None_iff)
  have ke: "d = [] \<Longrightarrow> map_of d ''title'' = None"
    by simp
  show ?thesis
  proof (cases "map_of d ''title''")
    case None
    with Some show ?thesis
      by (simp add: add_post_def kt kc split: bool.splits)
  next
    case t: (Some t)
    with ke have ne: "d \<noteq> []" by auto
    show ?thesis
    proof (cases "map_of d ''content''")
      case None
      with Some t ne show ?thesis
        by (simp add: add_post_def kt kc)
    next
      case c: (Some c)
      with Some t ne show ?thesis
        by (simp add: add_post_def kt kc Let_def)
    qed
  qed
qed

theorem add_post_checks_keys_only_witness:
  "add_post (Some [(''title'', ''''), (''content'', '''')]) POSTS0 =
     ((JPost \<lparr>id' = 3, title = '''', content = ''''\<rparr>, 201),
      POSTS0 @ [\<lparr>id' = 3, title = '''', content = ''''\<rparr>]) \<and>
   add_post (Some [(''title'', ''A'')]) POSTS0 = ((JError ''Missing title or content'', 400), POSTS0) \<and>
   add_post None POSTS0 = ((JError ''Missing title or content'', 400), POSTS0)"
proof -
  have n: "new_id POSTS0 = 3"
    by (simp add: new_id_def POSTS0_def)
  have "add_post (Some [(''title'', ''''), (''content'', '''')]) POSTS0 =
     ((JPost \<lparr>id' = 3, title = '''', content = ''''\<rparr>, 201),
      POSTS0 @ [\<lparr>id' = 3, title = '''', content = ''''\<rparr>])"
    using add_post_checks_keys_only [of "Some [(''title'', ''''), (''content'', '''')]" POSTS0] n
    by simp
  moreover have "add_post (Some [(''title'', ''A'')]) POSTS0 =
      ((JError ''Missing title or content'', 400), POSTS0)"
    using add_post_checks_keys_only [of "Some [(''title'', ''A'')]" POSTS0]
    by (simp add: prod_eq_iff)
  moreover have "add_post None POSTS0 = ((JError ''Missing title or content'', 400), POSTS0)"
    using add_post_checks_keys_only [of None POSTS0]
    by (simp add: prod_eq_iff)
  ultimately show ?thesis by blast
qed

subsection \<open>Sorted listing\<close>

lemma mset_py_sort: "mset (py_sort key reverse xs) = mset xs"
  by (simp add: py_sort_def)

lemma py_sort_stable:
  "filter (\<lambda>x. key x = k) (py_sort key reverse xs) = filter (\<lambda>x. key x = k) xs"
proof (cases reverse)
  case True
  have "filter (\<lambda>x. key x = k) (rev (sort_key key (rev xs))) =
      rev (filter (\<lambda>x. key x = k) (sort_key key (rev xs)))"
    by (simp only: rev_filter)
  also have "\<dots> = rev (filter (\<lambda>x. key x = k) (rev xs))"
    by (simp only: sort_key_stable)
  also have "\<dots> = filter (\<lambda>x. key x = k) xs"
    by (simp add: rev_filter)
  finally show ?thesis using True by (simp add: py_sort_def)
next
  case False
  then show ?thesis by (simp add: py_sort_def sort_key_stable)
qed

lemma py_sort_ordered:
  "if reverse then sorted_wrt (\<lambda>a b. b \<le> a) (map key (py_sort key reverse xs))
   else sorted_wrt (\<lambda>a b. a \<le> b) (map key (py_sort key reverse xs))"
proof (cases reverse)
  case True
  have "sorted (map key (sort_key key (rev xs)))"
    by (rule sorted_sort_key)
  then have "sorted_wrt (\<lambda>a b. b \<le> a) (rev (map key (sort_key key (rev xs))))"
    by (simp only: sorted_wrt_rev)
  with True show ?thesis by (simp add: py_sort_def rev_map)
next
  case False
  then show ?thesis by (simp add: py_sort_def)
qed

text \<open>
  C3. For \<open>sort\<close> one of \<open>title\<close> and \<open>content\<close>, and \<open>direction\<close> absent or one of
  \<open>asc\<close> and \<open>desc\<close>, the list request answers 200 with a permutation of the
  collection. The lower-cased values of the chosen field never decrease along the answer
  (never increase for \<open>desc\<close>), and the posts with one and the same lower-cased value
  stand in the order they have in the collection, in both directions. The collection
  itself is left as it was.
\<close>

theorem get_posts_sorted:
  assumes "sort_field \<in> {''title'', ''content''}"
    and "direction \<in> {None, Some ''asc'', Some ''desc''}"
  shows "\<exists>out. get_posts (Some sort_field) direction POSTS = ((JPosts out, 200), POSTS) \<and>
     mset out = mset POSTS \<and>
     (let key = (\<lambda>p. lower (if sort_field = ''title'' then title p else content p))
      in (if direction = Some ''desc'' then sorted_wrt (\<lambda>a b. b \<le> a) (map key out)
          else sorted_wrt (\<lambda>a b. a \<le> b) (map key out)) \<and>
         (\<forall>k. filter (\<lambda>p. key p = k) out = filter (\<lambda>p. key p = k) POSTS))"
proof -
  let ?key = "\<lambda>p. lower (if sort_field = ''title'' then title p else content p)"
  let ?rev = "direction = Some ''desc''"
  let ?out = "py_sort ?key ?rev POSTS"
  from assms have "get_posts (Some sort_field) direction POSTS = ((JPosts ?out, 200), POSTS)"
    by (auto simp add: get_posts_def Let_def getitem_def truthy_def valid_fields_def
        valid_directions_def)
  moreover have "mset ?out = mset POSTS"
    by (rule mset_py_sort)
  moreover have "if ?rev then sorted_wrt (\<lambda>a b. b \<le> a) (map ?key ?out)
      else sorted_wrt (\<lambda>a b. a \<le> b) (map ?key ?out)"
    by (rule py_sort_ordered)
  moreover have "\<forall>k. filter (\<lambda>p. ?key p = k) ?out = filter (\<lambda>p. ?key p = k) POSTS"
    by (simp only: py_sort_stable) simp
  ultimately show ?thesis
    unfolding Let_def by blast
qed

theorem get_posts_sorted_witness:
  "get_posts (Some ''title'') (Some ''desc'') POSTS0 =
     ((JPosts [\<lparr>id' = 2, title = ''Second post'', content = ''This is the second post.''\<rparr>,
               \<lparr>id' = 1, title = ''First post'', content = ''This is the first post.''\<rparr>], 200),
      POSTS0) \<and>
   (\<exists>out. get_posts (Some ''content'') None POSTS0 = ((JPosts out, 200), POSTS0) \<and>
      mset out = mset POSTS0 \<and>
      sorted_wrt (\<lambda>a b. a \<le> b) (map (\<lambda>p. lower (content p)) out)) \<and>
   fst (get_posts (Some ''title'') (Some ''desc'')
         [\<lparr>id' = 1, title = ''a'', content = ''x''\<rparr>, \<lparr>id' = 2, title = ''A'', content = ''y''\<rparr>,
          \<lparr>id' = 3, title = ''b'', content = ''z''\<rparr>]) =
     (JPosts [\<lparr>id' = 3, title = ''b'', content = ''z''\<rparr>, \<lparr>id' = 1, title = ''a'', content = ''x''\<rparr>,
              \<lparr>id' = 2, title = ''A'', content = ''y''\<rparr>], 200)"
proof -
  have "get_posts (Some ''title'') (Some ''desc'') POSTS0 =
     ((JPosts [\<lparr>id' = 2, title = ''Second post'', content = ''This is the second post.''\<rparr>,
               \<lparr>id' = 1, title = ''First post'', content = ''This is the first post.''\<rparr>], 200),
      POSTS0)"
    by code_simp
  moreover have "\<exists>out. get_posts (Some ''content'') None POSTS0 = ((JPosts out, 200), POSTS0) \<and>
      mset out = mset POSTS0 \<and>
      sorted_wrt (\<lambda>a b. a \<le> b) (map (\<lambda>p. lower (content p)) out)"
    using get_posts_sorted [of "''content''" None POSTS0]
    by (simp add: Let_def) blast
  moreover have "fst (get_posts (Some ''title'') (Some ''desc'')
         [\<lparr>id' = 1, title = ''a'', content = ''x''\<rparr>, \<lparr>id' = 2, title = ''A'', content = ''y''\<rparr>,
          \<lparr>id' = 3, title = ''b'', content = ''z''\<rparr>]) =
     (JPosts [\<lparr>id' = 3, title = ''b'', content = ''z''\<rparr>, \<lparr>id' = 1, title = ''a'', content = ''x''\<rparr>,
              \<lparr>id' = 2, title = ''A'', content = ''y''\<rparr>], 200)"
    by code_simp
  ultimately show ?thesis by blast
qed

subsection \<open>Search\<close>

lemma startswith_iff: "startswith s q = (\<exists>ss. s = q @ ss)"
  by (induction s q rule: startswith.induct) auto

lemma str_in_iff: "str_in q s = (\<exists>ps ss. s = ps @ q @ ss)"
proof (induction s)
  case Nil
  then show ?case by simp
next
  case (Cons d s)
  show ?case
  proof
    assume "str_in q (d # s)"
    then consider "startswith (d # s) q" | "str_in q s" by auto
    then show "\<exists>ps ss. d # s = ps @ q @ ss"
    proof cases
      case 1
      then obtain ss where "d # s = [] @ q @ ss" by (auto simp add: startswith_iff)
      then show ?thesis by blast
    next
      case 2
      with Cons.IH obtain ps ss where "s = ps @ q @ ss" by blast
      then have "d # s = (d # ps) @ q @ ss" by simp
      then show ?thesis by blast
    qed
  next
    assume "\<exists>ps ss. d # s = ps @ q @ ss"
    then obtain ps ss where e: "d # s = ps @ q @ ss" by blast
    show "str_in q (d # s)"
    proof (cases ps)
      case Nil
      with e have "startswith (d # s) q" by (auto simp add: startswith_iff)
      then show ?thesis by simp
    next
      case (Cons a ps')
      with e have "s = ps' @ q @ ss" by simp
      with Cons.IH have "str_in q s" by blast
      then show ?thesis by simp
    qed
  qed
qed

lemma foldl_append_filter:
  "foldl (\<lambda>matched post. if P post then matched @ [post] else matched) acc xs = acc @ filter P xs"
  by (induction xs arbitrary: acc) auto

lemma lower_Nil_iff: "(lower q = []) = (q = [])"
  by (simp add: lower_def)

text \<open>
  C4. With an absent query read as the empty string, \<open>search_posts\<close> answers 200 with
  exactly the posts, in the order of the collection, for which the title query is not empty
  and its lower-cased form occurs as a block in the lower-cased title, or the content
  query is not empty and its lower-cased form occurs as a block in the lower-cased
  content. With both queries empty the answer is the empty list. The collection is left
  as it was.
\<close>

theorem search_posts_matches:
  "(let tq = (case title_arg of None \<Rightarrow> [] | Some q \<Rightarrow> q);
        cq = (case content_arg of None \<Rightarrow> [] | Some q \<Rightarrow> q)
    in search_posts title_arg content_arg POSTS =
         ((JPosts (filter (\<lambda>p. (tq \<noteq> [] \<and> (\<exists>ps ss. lower (title p) = ps @ lower tq @ ss)) \<or>
                                 (cq \<noteq> [] \<and> (\<exists>ps ss. lower (content p) = ps @ lower cq @ ss)))
                     POSTS), 200), POSTS) \<and>
       (if tq = [] \<and> cq = [] then search_posts title_arg content_arg POSTS = ((JPosts [], 200), POSTS)
        else True))"
  by (simp add: search_posts_def Let_def foldl_append_filter str_in_iff lower_Nil_iff)

theorem search_posts_matches_witness:
  "filter (\<lambda>p. \<exists>ps ss. lower (title p) = ps @ lower ''FIRST'' @ ss) POSTS0 =
     [\<lparr>id' = 1, title = ''First post'', content = ''This is the first post.''\<rparr>] \<and>
   search_posts None (Some '''') POSTS0 = ((JPosts [], 200), POSTS0)"
proof -
  have "search_posts (Some ''FIRST'') None POSTS0 =
      ((JPosts [\<lparr>id' = 1, title = ''First post'', content = ''This is the first post.''\<rparr>], 200),
       POSTS0)"
    by code_simp
  with search_posts_matches [of "Some ''FIRST''" None POSTS0]
  have "filter (\<lambda>p. \<exists>ps ss. lower (title p) = ps @ lower ''FIRST'' @ ss) POSTS0 =
     [\<lparr>id' = 1, title = ''First post'', content = ''This is the first post.''\<rparr>]"
    by (simp add: Let_def)
  moreover have "search_posts None (Some '''') POSTS0 = ((JPosts [], 200), POSTS0)"
    using search_posts_matches [of None "Some ''''" POSTS0] by (simp add: Let_def)
  ultimately show ?thesis by blast
qed

subsection \<open>What one request does to the ids\<close>

lemma add_post_snd:
  "snd (add_post data POSTS) = POSTS \<or>
   (\<exists>t c. snd (add_post data POSTS) = POSTS @ [\<lparr>id' = new_id POSTS, title = t, content = c\<rparr>])"
  by (cases data) (auto simp add: add_post_def Let_def split: option.splits bool.splits)

lemma map_id_assign: "map id' (assign i t c POSTS) = map id' POSTS"
  by (induction POSTS) auto

lemma map_id_update_post: "map id' (snd (update_post post_id data POSTS)) = map id' POSTS"
  by (simp add: update_post_def map_id_assign Let_def split: option.splits)

lemma delete_post_snd:
  "snd (delete_post post_id POSTS) = POSTS \<or>
   (\<exists>ys p zs. POSTS = ys @ p # zs \<and> id' p = post_id \<and> snd (delete_post post_id POSTS) = ys @ zs)"
proof (cases "find (\<lambda>post. id' post = post_id) POSTS")
  case None
  then show ?thesis by (simp add: delete_post_def)
next
  case (Some p)
  from find_split [OF Some] obtain ys zs
    where s: "POSTS = ys @ p # zs" "id' p = post_id" "\<forall>q \<in> set ys. id' q \<noteq> post_id"
    by blast
  then have "remove1 p POSTS = ys @ zs"
    using remove1_first [of ys p zs] by simp
  with Some have "snd (delete_post post_id POSTS) = ys @ zs"
    by (simp add: delete_post_def)
  with s show ?thesis by blast
qed

lemma distinct_add_post:
  assumes "distinct (map id' POSTS)"
  shows "distinct (map id' (snd (add_post data POSTS)))"
proof -
  have "new_id POSTS \<notin> id' ` set POSTS"
    using new_id_greater [of _ POSTS] by fastforce
  with assms add_post_snd [of data POSTS] show ?thesis by auto
qed

lemma distinct_delete_post:
  assumes "distinct (map id' POSTS)"
  shows "distinct (map id' (snd (delete_post post_id POSTS)))"
  using assms delete_post_snd [of post_id POSTS] by auto

lemma distinct_step: "distinct (map id' POSTS) \<Longrightarrow> distinct (map id' (step POSTS r))"
  by (cases r) (simp_all add: distinct_add_post distinct_delete_post map_id_update_post)

lemma run_Cons: "run (r # reqs) POSTS = run reqs (step POSTS r)"
  by (simp add: run_def)

lemma run_Nil: "run [] POSTS = POSTS"
  by (simp add: run_def)

lemma distinct_run: "distinct (map id' POSTS) \<Longrightarrow> distinct (map id' (run reqs POSTS))"
  by (induction reqs arbitrary: POSTS) (simp_all add: run_Nil run_Cons distinct_step)

lemma distinct_POSTS0: "distinct (map id' POSTS0)"
  by (simp add: POSTS0_def)

subsection \<open>Distinct ids\<close>

text \<open>
  C8. In every collection that a sequence of create, update and delete requests makes of
  the seed collection, the ids are pairwise distinct. In such a collection a create
  either fails and changes nothing, or appends one post whose id is greater than every id
  of the collection; an update leaves the list of ids as it is; a delete changes nothing
  or takes one post out and leaves the others as they are.
\<close>

theorem ids_pairwise_distinct:
  "distinct (map id' (run reqs POSTS0)) \<and>
   (snd (add_post data (run reqs POSTS0)) = run reqs POSTS0 \<or>
      (\<exists>q. snd (add_post data (run reqs POSTS0)) = run reqs POSTS0 @ [q] \<and>
         Max (insert (id' q) (id' ` set (run reqs POSTS0))) = id' q \<and>
         id' q \<notin> id' ` set (run reqs POSTS0))) \<and>
   map id' (snd (update_post post_id data (run reqs POSTS0))) = map id' (run reqs POSTS0) \<and>
   (snd (delete_post post_id (run reqs POSTS0)) = run reqs POSTS0 \<or>
      (\<exists>ys p zs. run reqs POSTS0 = ys @ p # zs \<and>
         snd (delete_post post_id (run reqs POSTS0)) = ys @ zs))"
proof (intro conjI)
  let ?s = "run reqs POSTS0"
  show "distinct (map id' ?s)"
    by (rule distinct_run [OF distinct_POSTS0])
  show "map id' (snd (update_post post_id data ?s)) = map id' ?s"
    by (rule map_id_update_post)
  show "snd (delete_post post_id ?s) = ?s \<or>
      (\<exists>ys p zs. ?s = ys @ p # zs \<and> snd (delete_post post_id ?s) = ys @ zs)"
    using delete_post_snd [of post_id ?s] by blast
  have gt: "\<forall>p \<in> set ?s. id' p < new_id ?s"
    using new_id_greater by blast
  then have a: "new_id ?s \<notin> id' ` set ?s"
    by fastforce
  from gt have "\<forall>i \<in> id' ` set ?s. i \<le> new_id ?s"
    by fastforce
  then have b: "Max (insert (new_id ?s) (id' ` set ?s)) = new_id ?s"
    by (intro Max_eqI) auto
  from add_post_snd [of data ?s] a b
  show "snd (add_post data ?s) = ?s \<or>
      (\<exists>q. snd (add_post data ?s) = ?s @ [q] \<and>
         Max (insert (id' q) (id' ` set ?s)) = id' q \<and> id' q \<notin> id' ` set ?s)"
    by auto
qed

theorem ids_pairwise_distinct_witness:
  "map id' (run [Create (Some [(''title'', ''A''), (''content'', ''B'')]), Delete 1,
                 Update 2 (Some [(''title'', ''X'')])] POSTS0) = [2, 3] \<and>
   distinct (map id' (run [Create (Some [(''title'', ''A''), (''content'', ''B'')]), Delete 1,
                           Update 2 (Some [(''title'', ''X'')])] POSTS0))"
proof -
  have "map id' (run [Create (Some [(''title'', ''A''), (''content'', ''B'')]), Delete 1,
                      Update 2 (Some [(''title'', ''X'')])] POSTS0) = [2, 3]"
    by code_simp
  moreover have "distinct (map id' (run [Create (Some [(''title'', ''A''), (''content'', ''B'')]),
      Delete 1, Update 2 (Some [(''title'', ''X'')])] POSTS0))"
    using ids_pairwise_distinct
      [of "[Create (Some [(''title'', ''A''), (''content'', ''B'')]), Delete 1,
            Update 2 (Some [(''title'', ''X'')])]"]
    by blast
  ultimately show ?thesis by blast
qed

subsection \<open>Ids after a delete\<close>

lemma delete_post_id_gone:
  assumes "distinct (map id' POSTS)"
  shows "post_id \<notin> id' ` set (snd (delete_post post_id POSTS))"
proof (cases "find (\<lambda>post. id' post = post_id) POSTS")
  case None
  then have "post_id \<notin> id' ` set POSTS"
    by (auto simp add: find_None_iff)
  with None show ?thesis by (simp add: delete_post_def)
next
  case (Some p)
  from find_split [OF Some] obtain ys zs
    where s: "POSTS = ys @ p # zs" "id' p = post_id" "\<forall>q \<in> set ys. id' q \<noteq> post_id"
    by blast
  then have "remove1 p POSTS = ys @ zs"
    using remove1_first [of ys p zs] by simp
  with Some have r: "snd (delete_post post_id POSTS) = ys @ zs"
    by (simp add: delete_post_def)
  from assms s(1,2) have "post_id \<notin> id' ` set (ys @ zs)"
    by auto
  with r show ?thesis by simp
qed

lemma ids_step:
  assumes "i \<notin> id' ` set POSTS" and "i \<in> id' ` set (step POSTS r)"
  shows "\<exists>data. r = Create data \<and> new_id POSTS = i"
proof (cases r)
  case (Create data)
  from assms Create add_post_snd [of data POSTS] have "new_id POSTS = i"
    by auto
  with Create show ?thesis by simp
next
  case (Update post_id data)
  have "id' ` set (step POSTS r) = set (map id' (snd (update_post post_id data POSTS)))"
    using Update by simp
  also have "\<dots> = id' ` set POSTS"
    by (simp only: map_id_update_post) simp
  finally show ?thesis using assms by simp
next
  case (Delete post_id)
  with assms delete_post_snd [of post_id POSTS] show ?thesis
    by auto
qed

lemma id_reappears:
  "i \<notin> id' ` set POSTS \<Longrightarrow> i \<in> id' ` set (run later POSTS) \<Longrightarrow>
   \<exists>before data after. later = before @ Create data # after \<and>
      i \<notin> id' ` set (run before POSTS) \<and> new_id (run before POSTS) = i"
proof (induction later arbitrary: POSTS)
  case Nil
  then show ?case by (simp add: run_Nil)
next
  case (Cons r later)
  show ?case
  proof (cases "i \<in> id' ` set (step POSTS r)")
    case True
    from ids_step [OF Cons.prems(1) True] obtain data
      where "r = Create data" "new_id POSTS = i" by blast
    with Cons.prems(1)
    have "r # later = [] @ Create data # later \<and> i \<notin> id' ` set (run [] POSTS) \<and>
        new_id (run [] POSTS) = i"
      by (simp add: run_Nil)
    then show ?thesis by blast
  next
    case False
    from Cons.prems(2) have "i \<in> id' ` set (run later (step POSTS r))"
      by (simp add: run_Cons)
    from Cons.IH [OF False this] obtain before data after
      where "later = before @ Create data # after"
        "i \<notin> id' ` set (run before (step POSTS r))"
        "new_id (run before (step POSTS r)) = i"
      by blast
    then have "r # later = (r # before) @ Create data # after \<and>
        i \<notin> id' ` set (run (r # before) POSTS) \<and> new_id (run (r # before) POSTS) = i"
      by (simp add: run_Cons)
    then show ?thesis by blast
  qed
qed

text \<open>
  C1, as the code has it. The collection keeps no record of the ids it has given out: a
  create takes one more than the greatest id that is in the collection at that moment. In
  every collection that a sequence of create, update and delete requests makes of the seed
  collection, a delete leaves no post with the deleted id; and whatever requests follow,
  the id is in the collection again only if one of them is a create made at a moment when
  the id is absent and is one more than the greatest id present (or is 1 and the collection
  is empty), which then assigns it again.
\<close>

theorem deleted_id_back_only_as_next_id:
  "post_id \<notin> id' ` set (snd (delete_post post_id (run reqs POSTS0))) \<and>
   (post_id \<in> id' ` set (run later (snd (delete_post post_id (run reqs POSTS0)))) \<longrightarrow>
      (\<exists>before data after. later = before @ Create data # after \<and>
         post_id \<notin> id' ` set (run before (snd (delete_post post_id (run reqs POSTS0)))) \<and>
         new_id (run before (snd (delete_post post_id (run reqs POSTS0)))) = post_id))"
proof (intro conjI impI)
  let ?s = "snd (delete_post post_id (run reqs POSTS0))"
  have "distinct (map id' (run reqs POSTS0))"
    by (rule distinct_run [OF distinct_POSTS0])
  then show gone: "post_id \<notin> id' ` set ?s"
    by (rule delete_post_id_gone)
  assume "post_id \<in> id' ` set (run later ?s)"
  with gone show "\<exists>before data after. later = before @ Create data # after \<and>
      post_id \<notin> id' ` set (run before ?s) \<and> new_id (run before ?s) = post_id"
    by (rule id_reappears)
qed

theorem deleted_id_back_only_as_next_id_witness:
  "2 \<notin> id' ` set (snd (delete_post 2 (run [] POSTS0))) \<and>
   2 \<in> id' ` set (run [Create (Some [(''title'', ''A''), (''content'', ''B'')])]
                    (snd (delete_post 2 (run [] POSTS0)))) \<and>
   (\<exists>before data after.
      [Create (Some [(''title'', ''A''), (''content'', ''B'')])] = before @ Create data # after \<and>
      new_id (run before (snd (delete_post 2 (run [] POSTS0)))) = 2)"
proof -
  have a: "2 \<in> id' ` set (run [Create (Some [(''title'', ''A''), (''content'', ''B'')])]
      (snd (delete_post 2 (run [] POSTS0))))"
    by code_simp
  from a deleted_id_back_only_as_next_id
    [of 2 "[]" "[Create (Some [(''title'', ''A''), (''content'', ''B'')])]"]
  show ?thesis by blast
qed

text \<open>The claim as the specification states it fails on the seed collection: after the
  post with id 2 is deleted, the next create assigns id 2 again, and the listing shows
  it.\<close>

theorem deleted_id_assigned_again:
  "run [Delete 2] POSTS0 =
     [\<lparr>id' = 1, title = ''First post'', content = ''This is the first post.''\<rparr>] \<and>
   fst (add_post (Some [(''title'', ''A''), (''content'', ''B'')]) (run [Delete 2] POSTS0)) =
     (JPost \<lparr>id' = 2, title = ''A'', content = ''B''\<rparr>, 201) \<and>
   fst (get_posts None None
         (run [Delete 2, Create (Some [(''title'', ''A''), (''content'', ''B'')])] POSTS0)) =
     (JPosts [\<lparr>id' = 1, title = ''First post'', content = ''This is the first post.''\<rparr>,
              \<lparr>id' = 2, title = ''A'', content = ''B''\<rparr>], 200)"
  by code_simp

end
